theory Spec2Isabelle
  imports Complex_Main
begin

section \<open>The image optimizer: front-end handlers and the batch engine's contract\<close>

text \<open>
  The repository is a Tauri application. Its React front end (\<^verbatim>\<open>App.tsx\<close>,
  \<^verbatim>\<open>types.ts\<close> and the components) is in the sources; the Rust back end
  (\<^verbatim>\<open>src-tauri\<close>), which holds the batch coordinator and the resize
  operator, is not.

  The sources hold two revisions of \<^verbatim>\<open>App.tsx\<close>. The later one
  (\<^verbatim>\<open>src/unnamed/part_001\<close>) is the one that fits the current
  \<^verbatim>\<open>SettingsPanel.tsx\<close> (it passes \<^verbatim>\<open>resizeMode\<close> and
  \<^verbatim>\<open>resizePercentage\<close>, which that component requires); the earlier one
  (\<^verbatim>\<open>src/unnamed/part_000\<close>) fits the earlier settings panel. The handlers
  below are those of the later revision. Where the earlier revision differs, the
  definition says so.

  A React state setter is modelled as a record update of the application state, an
  \<^verbatim>\<open>await invoke(...)\<close> as a command appended to the list of commands the
  handler has sent, with the outcome of the invocation (resolved or rejected) given
  to the handler as an argument. Each handler is modelled as running to completion
  with no other event in between.
\<close>

subsection \<open>The types of \<^verbatim>\<open>types.ts\<close>\<close>

text \<open>
  \<^verbatim>\<open>OutputFormat\<close>: the string literals \<^verbatim>\<open>'png' | 'webp' | 'tiff' | 'qoi' | 'bmp'\<close>
  of \<^verbatim>\<open>types.ts\<close>, and \<^verbatim>\<open>'jpeg'\<close>, which the later \<^verbatim>\<open>App.tsx\<close>
  and \<^verbatim>\<open>SettingsPanel.tsx\<close> compare \<^verbatim>\<open>outputFormat\<close> with.
\<close>

datatype OutputFormat = Fmt_png | Fmt_webp | Fmt_jpeg | Fmt_tiff | Fmt_qoi | Fmt_bmp

text \<open>\<^verbatim>\<open>OperationMode = 'optimize' | 'resize' | 'convert' | 'optimize_resize' | 'all'\<close>\<close>

datatype OperationMode =
  Mode_optimize | Mode_resize | Mode_convert | Mode_optimize_resize | Mode_all

text \<open>\<^verbatim>\<open>ResizeMode\<close>: \<^verbatim>\<open>'percentage'\<close> or \<^verbatim>\<open>'dimensions'\<close>.\<close>

datatype ResizeMode = Resize_percentage | Resize_dimensions

text \<open>\<^verbatim>\<open>FileStatus = 'pending' | 'processing' | 'success' | 'failed'\<close>\<close>

datatype FileStatus = Status_pending | Status_processing | Status_success | Status_failed

text \<open>
  \<^verbatim>\<open>TrackedFile\<close>. The fields \<^verbatim>\<open>id\<close> and \<^verbatim>\<open>size\<close> are named
  \<open>file_id\<close> and \<open>file_size\<close>, the names \<open>id\<close> and \<open>size\<close> being constants of
  HOL. An optional field is an \<open>option\<close>: \<open>None\<close> is \<^verbatim>\<open>undefined\<close>.
\<close>

record TrackedFile =
  file_id :: string
  name :: string
  path :: string
  file_size :: nat
  width :: "nat option"
  height :: "nat option"
  status :: FileStatus
  error :: "string option"
  outputPath :: "string option"
  outputSize :: "nat option"
  outputWidth :: "nat option"
  outputHeight :: "nat option"

text \<open>
  \<^verbatim>\<open>FileResult\<close>, as the back end serialises it. Its \<^verbatim>\<open>path\<close>,
  \<^verbatim>\<open>status\<close> and \<^verbatim>\<open>error\<close> are named \<open>r_path\<close>, \<open>r_status\<close> and
  \<open>r_error\<close> here (a record field is a constant, and \<open>TrackedFile\<close> has these
  names); \<open>None\<close> is \<^verbatim>\<open>null\<close>.
\<close>

record FileResult =
  r_path :: string
  r_status :: FileStatus
  output_path :: "string option"
  output_size :: "nat option"
  output_width :: "nat option"
  output_height :: "nat option"
  r_error :: "string option"

text \<open>\<^verbatim>\<open>BatchResult\<close>\<close>

record BatchResult =
  results :: "FileResult list"
  total :: nat
  success_count :: nat
  failed_count :: nat

text \<open>
  \<^verbatim>\<open>OptimizeBatchRequest\<close>: the object \<^verbatim>\<open>handleStart\<close> passes as
  \<^verbatim>\<open>request\<close>, with the field names of the object literal.
\<close>

record OptimizeBatchRequest =
  paths :: "string list"
  output_dir :: string
  format :: "OutputFormat option"
  overwrite :: bool
  operation_mode :: OperationMode
  quality :: "int option"
  resize_mode :: "ResizeMode option"
  resize_percentage :: "int option"
  max_width :: "int option"
  max_height :: "int option"
  keep_aspect_ratio :: bool
  create_backup :: bool

subsection \<open>The state of \<^verbatim>\<open>App\<close>\<close>

text \<open>
  One field for each \<^verbatim>\<open>useState\<close> of \<^verbatim>\<open>App\<close>. The state variables
  \<^verbatim>\<open>overwrite\<close> and \<^verbatim>\<open>quality\<close> are named \<open>overwriteState\<close> and
  \<open>qualityState\<close>: the request has fields of the same names.
\<close>

record AppState =
  files :: "TrackedFile list"
  operationMode :: OperationMode
  outputFormat :: OutputFormat
  outputDir :: string
  overwriteState :: bool
  qualityState :: int
  resizeMode :: ResizeMode
  resizePercentage :: int
  maxWidth :: int
  maxHeight :: int
  keepAspectRatio :: bool
  isProcessing :: bool
  processedFiles :: nat
  successCount :: nat
  failedCount :: nat

text \<open>The commands of the back end that the front end invokes.\<close>

datatype Command =
  reset_cancel_flag
| optimize_batch OptimizeBatchRequest
| cancel_batch

text \<open>The initial values of the \<^verbatim>\<open>useState\<close> calls.\<close>

definition initial_state :: AppState where
  "initial_state =
     \<lparr> files = [], operationMode = Mode_optimize, outputFormat = Fmt_webp, outputDir = [],
       overwriteState = True, qualityState = 90, resizeMode = Resize_percentage,
       resizePercentage = 75, maxWidth = 0, maxHeight = 0, keepAspectRatio = True,
       isProcessing = False, processedFiles = 0, successCount = 0, failedCount = 0 \<rparr>"

subsection \<open>\<^verbatim>\<open>handleFilesAdded\<close>\<close>

text \<open>
  \<^verbatim>\<open>s.lastIndexOf(c)\<close> for a one-character search string: the index of the last
  occurrence, \<open>-1\<close> when there is none.
\<close>

definition lastIndexOf :: "string \<Rightarrow> char \<Rightarrow> int" where
  "lastIndexOf s c =
     (case filter (\<lambda>i. s ! i = c) (rev [0..<length s]) of
        [] \<Rightarrow> -1
      | i # _ \<Rightarrow> int i)"

text \<open>The truth value JavaScript gives an optional number: defined and not zero.\<close>

definition truthy :: "nat option \<Rightarrow> bool" where
  "truthy v = (case v of None \<Rightarrow> False | Some n \<Rightarrow> n \<noteq> 0)"

text \<open>
  \<^verbatim>\<open>Math.max(...xs)\<close> on the widths or heights of a list the handler has found
  non-empty (on the empty list JavaScript gives \<^verbatim>\<open>-Infinity\<close>; the handler never
  asks for it). The \<^verbatim>\<open>!\<close> of \<^verbatim>\<open>f.width!\<close> is \<open>the\<close>, on files whose
  width is defined.
\<close>

definition math_max :: "nat list \<Rightarrow> nat" where
  "math_max xs = fold max xs 0"

definition handleFilesAdded :: "AppState \<Rightarrow> TrackedFile list \<Rightarrow> AppState" where
  "handleFilesAdded st newFiles =
     (let st1 =
            (case newFiles of
               [] \<Rightarrow> st
             | first # _ \<Rightarrow>
                 if length (files st) = 0 \<and> outputDir st = [] then
                   (let firstFilePath = path first;
                        lastSlashIndex =
                          max (lastIndexOf firstFilePath CHR ''/'')
                              (lastIndexOf firstFilePath CHR 0x5C)
                    in if lastSlashIndex \<noteq> -1
                       then st\<lparr>outputDir := take (nat lastSlashIndex) firstFilePath\<rparr>
                       else st)
                 else st);
          prev = files st1;
          existingPaths = set (map path prev);
          uniqueNewFiles = filter (\<lambda>f. path f \<notin> existingPaths) newFiles;
          allFiles = prev @ uniqueNewFiles;
          st2 =
            (if length prev = 0 \<and> length uniqueNewFiles > 0 then
               (let filesWithDims =
                      filter (\<lambda>f. truthy (width f) \<and> truthy (height f)) uniqueNewFiles
                in if length filesWithDims > 0
                   then st1\<lparr>maxWidth := int (math_max (map (\<lambda>f. the (width f)) filesWithDims)),
                            maxHeight := int (math_max (map (\<lambda>f. the (height f)) filesWithDims))\<rparr>
                   else st1)
             else st1)
      in st2\<lparr>files := allFiles\<rparr>)"

subsection \<open>\<^verbatim>\<open>handleStart\<close> and \<^verbatim>\<open>handleCancel\<close>\<close>

text \<open>
  The \<^verbatim>\<open>request\<close> object of \<^verbatim>\<open>handleStart\<close>, built from the state the
  handler was called in. (The earlier revision has no \<^verbatim>\<open>resize_mode\<close>,
  \<^verbatim>\<open>resize_percentage\<close> and \<^verbatim>\<open>create_backup\<close>, does not test
  \<^verbatim>\<open>resizeMode\<close>, and sends \<^verbatim>\<open>quality\<close> for \<^verbatim>\<open>'webp'\<close> and
  \<^verbatim>\<open>'png'\<close> only.)
\<close>

definition build_request :: "AppState \<Rightarrow> OptimizeBatchRequest" where
  "build_request st =
     (let effectiveOutputDir = (if overwriteState st then [] else outputDir st)
      in \<lparr> paths = map path (files st),
           output_dir = effectiveOutputDir,
           format = (if operationMode st = Mode_convert then Some (outputFormat st) else None),
           overwrite = overwriteState st,
           operation_mode = operationMode st,
           quality =
             (if (operationMode st = Mode_optimize \<or>
                  operationMode st = Mode_optimize_resize \<or>
                  operationMode st = Mode_all) \<and>
                 (outputFormat st = Fmt_webp \<or>
                  outputFormat st = Fmt_png \<or>
                  outputFormat st = Fmt_jpeg)
              then Some (qualityState st) else None),
           resize_mode =
             (if operationMode st = Mode_resize \<or>
                 operationMode st = Mode_optimize_resize \<or>
                 operationMode st = Mode_all
              then Some (resizeMode st) else None),
           resize_percentage =
             (if (operationMode st = Mode_resize \<or>
                  operationMode st = Mode_optimize_resize \<or>
                  operationMode st = Mode_all) \<and>
                 resizeMode st = Resize_percentage
              then Some (resizePercentage st) else None),
           max_width =
             (if (operationMode st = Mode_resize \<or>
                  operationMode st = Mode_optimize_resize \<or>
                  operationMode st = Mode_all) \<and>
                 resizeMode st = Resize_dimensions \<and>
                 maxWidth st > 0
              then Some (maxWidth st) else None),
           max_height =
             (if (operationMode st = Mode_resize \<or>
                  operationMode st = Mode_optimize_resize \<or>
                  operationMode st = Mode_all) \<and>
                 resizeMode st = Resize_dimensions \<and>
                 maxHeight st > 0
              then Some (maxHeight st) else None),
           keep_aspect_ratio = keepAspectRatio st,
           create_backup = overwriteState st \<rparr>)"

text \<open>
  The update of one tracked file from the batch result
  (\<^verbatim>\<open>result.results.find((r) => r.path === f.path)\<close>): the first result of that
  path, if there is one.
\<close>

definition apply_result :: "BatchResult \<Rightarrow> TrackedFile \<Rightarrow> TrackedFile" where
  "apply_result result f =
     (case find (\<lambda>r. r_path r = path f) (results result) of
        Some fileResult \<Rightarrow>
          f\<lparr>status := r_status fileResult,
            error := r_error fileResult,
            outputPath := output_path fileResult,
            outputSize := output_size fileResult,
            outputWidth := output_width fileResult,
            outputHeight := output_height fileResult\<rparr>
      | None \<Rightarrow> f)"

text \<open>
  \<^verbatim>\<open>handleStart\<close>. \<open>reset_outcome\<close> and \<open>batch_outcome\<close> are what the two
  invocations give: \<open>Inr\<close> the resolved value, \<open>Inl\<close> the error of a rejection, as
  \<^verbatim>\<open>String(error)\<close>. A rejected \<^verbatim>\<open>reset_cancel_flag\<close> is caught and logged
  (the log is not part of the model), and the handler goes on. The result is the new
  state and the commands sent, in order.
\<close>

definition handleStart ::
  "AppState \<Rightarrow> string + unit \<Rightarrow> string + BatchResult \<Rightarrow> AppState \<times> Command list" where
  "handleStart st reset_outcome batch_outcome =
     (if length (files st) = 0 then (st, [])
      else if \<not> overwriteState st \<and> outputDir st = [] then (st, [])
      else
        (let sent1 = (case reset_outcome of Inr _ \<Rightarrow> [reset_cancel_flag]
                                          | Inl _ \<Rightarrow> [reset_cancel_flag]);
             st1 = st\<lparr>isProcessing := True, processedFiles := 0,
                      successCount := 0, failedCount := 0\<rparr>;
             st2 = st1\<lparr>files := map (\<lambda>f. f\<lparr>status := Status_pending, error := None\<rparr>)
                                     (files st1)\<rparr>;
             sent2 = sent1 @ [optimize_batch (build_request st)];
             st3 =
               (case batch_outcome of
                  Inr result \<Rightarrow>
                    st2\<lparr>files := map (apply_result result) (files st2),
                        processedFiles := total result,
                        successCount := success_count result,
                        failedCount := failed_count result\<rparr>
                | Inl err \<Rightarrow>
                    st2\<lparr>files := map (\<lambda>f. f\<lparr>status := Status_failed, error := Some err\<rparr>)
                                      (files st2),
                        processedFiles := length (files st),
                        failedCount := length (files st)\<rparr>)
         in (st3\<lparr>isProcessing := False\<rparr>, sent2)))"

text \<open>
  \<^verbatim>\<open>handleCancel\<close>: the command is sent; the processing flag of the front end is
  cleared when the invocation resolves, and a rejection is logged. (The earlier
  revision sends nothing and only clears the flag.)
\<close>

definition handleCancel :: "AppState \<Rightarrow> string + unit \<Rightarrow> AppState \<times> Command list" where
  "handleCancel st cancel_outcome =
     (case cancel_outcome of
        Inr _ \<Rightarrow> (st\<lparr>isProcessing := False\<rparr>, [cancel_batch])
      | Inl _ \<Rightarrow> (st, [cancel_batch]))"

section \<open>The back end, from the specification\<close>

subsection \<open>The batch coordinator\<close>

text \<open>
  Modelled from the spec: the batch coordinator's \<^verbatim>\<open>run\<close>, the boundary of the
  per-file pipeline and the result aggregator (sections 4.3 to 4.5 and 7 of the
  specification). Their code is the Rust back end, which is not in the sources.

  The coordinator validates the request (non-empty path list; output directory
  present when not overwriting), builds one task per unique input path in first-seen
  order, and before dispatching each task reads the cancellation flag: once it is
  set, no further task is started and the files never dispatched are left out of the
  result. The pipeline never fails past its boundary: an error of any stage becomes a
  failed result carrying the message. The aggregator folds the completed results
  into the report.

  The worker pool is modelled with one worker, so results are in dispatch order; the
  properties proved are stated on counts and on the set of paths, which do not
  depend on that order.
\<close>

datatype BatchError = InvalidRequest

text \<open>Modelled from the spec: what the stages of the pipeline give for a file that succeeds.\<close>

record PipelineOutput =
  out_path :: string
  out_size :: nat
  out_width :: nat
  out_height :: nat

text \<open>
  Modelled from the spec: the pipeline boundary. \<open>stages\<close> stands for decode, resize,
  recompress or convert, and write: \<open>Inl\<close> the message of the stage that failed.
\<close>

definition process :: "(string \<Rightarrow> string + PipelineOutput) \<Rightarrow> string \<Rightarrow> FileResult" where
  "process stages p =
     (case stages p of
        Inl msg \<Rightarrow>
          \<lparr> r_path = p, r_status = Status_failed, output_path = None, output_size = None,
            output_width = None, output_height = None, r_error = Some msg \<rparr>
      | Inr out \<Rightarrow>
          \<lparr> r_path = p, r_status = Status_success, output_path = Some (out_path out),
            output_size = Some (out_size out), output_width = Some (out_width out),
            output_height = Some (out_height out), r_error = None \<rparr>)"

text \<open>
  Modelled from the spec: duplicate suppression in first-seen order. \<open>seen\<close> holds
  the paths already kept.
\<close>

fun first_seen :: "string list \<Rightarrow> string list \<Rightarrow> string list" where
  "first_seen seen [] = []"
| "first_seen seen (p # ps) =
     (if p \<in> set seen then first_seen seen ps else p # first_seen (p # seen) ps)"

definition unique_paths :: "string list \<Rightarrow> string list" where
  "unique_paths ps = first_seen [] ps"

text \<open>
  Modelled from the spec: the dispatch loop. \<open>cancelled k\<close> is the value of the
  cancellation flag as the coordinator reads it when \<open>k\<close> tasks have been
  dispatched; the result is the list of tasks dispatched.
\<close>

fun dispatch :: "(nat \<Rightarrow> bool) \<Rightarrow> nat \<Rightarrow> string list \<Rightarrow> string list" where
  "dispatch cancelled k [] = []"
| "dispatch cancelled k (p # ps) =
     (if cancelled k then [] else p # dispatch cancelled (Suc k) ps)"

text \<open>Modelled from the spec: the result aggregator, a fold of the completed results.\<close>

definition add_result :: "FileResult \<Rightarrow> BatchResult \<Rightarrow> BatchResult" where
  "add_result r b =
     b\<lparr>results := results b @ [r],
       total := total b + 1,
       success_count := success_count b + (if r_status r = Status_success then 1 else 0),
       failed_count := failed_count b + (if r_status r = Status_failed then 1 else 0)\<rparr>"

definition aggregate :: "FileResult list \<Rightarrow> BatchResult" where
  "aggregate rs =
     fold add_result rs \<lparr> results = [], total = 0, success_count = 0, failed_count = 0 \<rparr>"

text \<open>Modelled from the spec: the validation of a request.\<close>

definition valid_request :: "OptimizeBatchRequest \<Rightarrow> bool" where
  "valid_request req = (paths req \<noteq> [] \<and> (overwrite req \<or> output_dir req \<noteq> []))"

text \<open>Modelled from the spec: \<^verbatim>\<open>run(BatchRequest) -> BatchResult\<close>.\<close>

definition run ::
  "(nat \<Rightarrow> bool) \<Rightarrow> (string \<Rightarrow> string + PipelineOutput) \<Rightarrow> OptimizeBatchRequest
     \<Rightarrow> BatchError + BatchResult" where
  "run cancelled stages req =
     (if \<not> valid_request req then Inl InvalidRequest
      else Inr (aggregate (map (process stages)
                  (dispatch cancelled 0 (unique_paths (paths req))))))"

subsection \<open>The resize operator\<close>

text \<open>
  Modelled from the spec: the target dimensions of the resize operator (section
  4.2); its code is in the Rust back end, which is not in the sources. The
  resampling of the pixel data is not modelled. Scale factors are exact rationals,
  \<open>round\<close> rounds to the nearest integer, and a maximum of \<open>0\<close> stands for a
  missing one.
\<close>

datatype ResizeSpec = Percentage nat | Dimensions nat nat

text \<open>Modelled from the spec: output dimensions are at least one pixel per axis.\<close>

definition at_least_one :: "int \<Rightarrow> nat" where
  "at_least_one n = nat (max 1 n)"

text \<open>
  Modelled from the spec: the scale that fits \<open>w \<times> h\<close> within the box; a zero maximum
  disables the constraint on its axis.
\<close>

definition fit_scale :: "nat \<Rightarrow> nat \<Rightarrow> nat \<Rightarrow> nat \<Rightarrow> rat" where
  "fit_scale maxW maxH w h =
     (if maxW = 0 then of_nat maxH / of_nat h
      else if maxH = 0 then of_nat maxW / of_nat w
      else min (of_nat maxW / of_nat w) (of_nat maxH / of_nat h))"

text \<open>Modelled from the spec: the three modes and the edge cases of section 4.2.\<close>

definition target_dimensions :: "ResizeSpec \<Rightarrow> bool \<Rightarrow> nat \<times> nat \<Rightarrow> nat \<times> nat" where
  "target_dimensions spec keepAspect orig =
     (case orig of (w, h) \<Rightarrow>
        (case spec of
           Percentage p \<Rightarrow>
             (at_least_one (round (of_nat w * of_nat p / 100 :: rat)),
              at_least_one (round (of_nat h * of_nat p / 100 :: rat)))
         | Dimensions maxW maxH \<Rightarrow>
             if maxW = 0 \<and> maxH = 0 then (w, h)
             else if keepAspect then
               (let scale = min 1 (fit_scale maxW maxH w h)
                in (at_least_one (round (of_nat w * scale)),
                    at_least_one (round (of_nat h * scale))))
             else (if maxW > 0 then maxW else w, if maxH > 0 then maxH else h)))"

subsection \<open>The cancellation flag\<close>

text \<open>
  Modelled from the spec: the control operations on the cancellation flag (sections
  3 and 6). The flag is one shared boolean; \<^verbatim>\<open>reset_cancel_flag\<close> resets it to
  false, \<^verbatim>\<open>cancel_batch\<close> sets it to true, and submitting a batch does not write
  it. The commands themselves are Rust code that is not in the sources.
\<close>

definition control_effect :: "Command \<Rightarrow> bool \<Rightarrow> bool" where
  "control_effect c flag =
     (case c of
        reset_cancel_flag \<Rightarrow> False
      | cancel_batch \<Rightarrow> True
      | optimize_batch req \<Rightarrow> flag)"

text \<open>Whether an invocation resolved (\<open>Inr\<close>) or was rejected (\<open>Inl\<close>).\<close>

definition resolved :: "string + 'a \<Rightarrow> bool" where
  "resolved outcome = (case outcome of Inl _ \<Rightarrow> False | Inr _ \<Rightarrow> True)"

text \<open>
  The invocations of \<^verbatim>\<open>handleStart\<close> and of \<^verbatim>\<open>handleCancel\<close>, each command
  with whether it resolved: the first invocation of \<^verbatim>\<open>handleStart\<close> is the one
  whose outcome is \<open>reset_outcome\<close>, the second the one whose outcome is
  \<open>batch_outcome\<close>.
\<close>

definition start_invocations ::
  "AppState \<Rightarrow> string + unit \<Rightarrow> string + BatchResult \<Rightarrow> (Command \<times> bool) list" where
  "start_invocations st reset_outcome batch_outcome =
     zip (snd (handleStart st reset_outcome batch_outcome))
         [resolved reset_outcome, resolved batch_outcome]"

definition cancel_invocations :: "AppState \<Rightarrow> string + unit \<Rightarrow> (Command \<times> bool) list" where
  "cancel_invocations st cancel_outcome =
     zip (snd (handleCancel st cancel_outcome)) [resolved cancel_outcome]"

text \<open>
  Modelled from the spec: the value of the flag when the batch is submitted, from
  the value \<open>flag\<close> it had before the handler ran: \<open>None\<close> when no batch is
  submitted. An invocation that is rejected has not performed its operation and
  leaves the flag as it was.
\<close>

fun flag_at_submission :: "(Command \<times> bool) list \<Rightarrow> bool \<Rightarrow> bool option" where
  "flag_at_submission [] flag = None"
| "flag_at_submission ((c, ok) # rest) flag =
     (case c of
        optimize_batch req \<Rightarrow> Some flag
      | _ \<Rightarrow> flag_at_submission rest (if ok then control_effect c flag else flag))"

text \<open>Modelled from the spec: the value of the flag after a list of invocations.\<close>

fun flag_after :: "(Command \<times> bool) list \<Rightarrow> bool \<Rightarrow> bool" where
  "flag_after [] flag = flag"
| "flag_after ((c, ok) # rest) flag =
     flag_after rest (if ok then control_effect c flag else flag)"

section \<open>Sample inputs\<close>

text \<open>
  A tracked file as the drop handler of \<^verbatim>\<open>DropZone\<close> builds it when the dropped
  file has no \<^verbatim>\<open>path\<close> and the handler falls back to its name
  (\<^verbatim>\<open>(file as any).path || file.name\<close>) and \<^verbatim>\<open>stat\<close> fails.
\<close>

definition photo :: TrackedFile where
  "photo =
     \<lparr> file_id = ''k3x9a'', name = ''photo.png'', path = ''photo.png'', file_size = 2048,
       width = None, height = None, status = Status_pending, error = None,
       outputPath = None, outputSize = None, outputWidth = None, outputHeight = None \<rparr>"

text \<open>The initial state with one tracked file and an output directory chosen.\<close>

definition ready_state :: AppState where
  "ready_state = initial_state\<lparr>files := [photo], outputDir := ''/out''\<rparr>"

text \<open>A request naming two files, one of them twice.\<close>

definition two_paths :: OptimizeBatchRequest where
  "two_paths = (build_request initial_state)\<lparr>paths := [''a.png'', ''b.png'', ''a.png'']\<rparr>"

text \<open>A run in which no cancellation is ever read.\<close>

definition never_cancelled :: "nat \<Rightarrow> bool" where
  "never_cancelled k = False"

text \<open>A run in which the flag is read as set once \<open>n\<close> tasks have been dispatched.\<close>

definition cancelled_after :: "nat \<Rightarrow> nat \<Rightarrow> bool" where
  "cancelled_after n k = (n \<le> k)"

text \<open>Pipeline stages that fail to decode every file.\<close>

definition corrupt_stages :: "string \<Rightarrow> string + PipelineOutput" where
  "corrupt_stages p = Inl ''decode error''"

section \<open>Properties of the front-end handlers\<close>

subsection \<open>Adding files\<close>

lemma handleFilesAdded_files:
  "files (handleFilesAdded st newFiles) =
     files st @ filter (\<lambda>f. path f \<notin> set (map path (files st))) newFiles"
  by (simp add: handleFilesAdded_def Let_def split: list.splits)

lemma handleFilesAdded_overwriteState:
  "overwriteState (handleFilesAdded st newFiles) = overwriteState st"
  by (simp add: handleFilesAdded_def Let_def split: list.splits)

text \<open>
  What the handler does guarantee: tracked paths stay pairwise distinct when the
  files added in one call have pairwise distinct paths.
\<close>

lemma handleFilesAdded_distinct:
  assumes "distinct (map path (files st))" and "distinct (map path newFiles)"
  shows "distinct (map path (files (handleFilesAdded st newFiles)))"
  using assms by (auto simp: handleFilesAdded_files distinct_map_filter) (metis imageI)

lemma handleFilesAdded_prefix:
  "take (length (files st)) (files (handleFilesAdded st newFiles)) = files st"
  by (simp add: handleFilesAdded_files)

text \<open>
  The handler on a first file with known dimensions: the output directory becomes the
  directory of the file and the maxima its dimensions.
\<close>

lemma handleFilesAdded_first_file:
  "handleFilesAdded initial_state
       [photo\<lparr>path := ''/pics/cat.png'', width := Some 4000, height := Some 2000\<rparr>]
     = initial_state
         \<lparr>files := [photo\<lparr>path := ''/pics/cat.png'', width := Some 4000, height := Some 2000\<rparr>],
          outputDir := ''/pics'', maxWidth := 4000, maxHeight := 2000\<rparr>"
  by (simp add: handleFilesAdded_def Let_def lastIndexOf_def initial_state_def photo_def
        truthy_def math_max_def)

lemma build_request_paths: "paths (build_request st) = map path (files st)"
  by (simp add: build_request_def)

subsection \<open>Starting a batch\<close>

lemma handleStart_sent:
  "files st \<noteq> [] \<Longrightarrow> overwriteState st \<or> outputDir st \<noteq> [] \<Longrightarrow>
   snd (handleStart st ro bo) = [reset_cancel_flag, optimize_batch (build_request st)]"
  by (auto simp: handleStart_def Let_def split: sum.splits)

text \<open>
  A request is submitted only past the two guards, and it is the request built from
  the state the handler was called in.
\<close>

lemma submitted:
  "optimize_batch req \<in> set (snd (handleStart st ro bo)) \<Longrightarrow>
   req = build_request st \<and> files st \<noteq> [] \<and> (overwriteState st \<or> outputDir st \<noteq> [])"
  by (auto simp: handleStart_def Let_def split: if_splits sum.splits)

lemma ready_state_submits:
  "optimize_batch (build_request ready_state)
     \<in> set (snd (handleStart ready_state (Inr ()) (Inl ''failed'')))"
  by (simp add: handleStart_sent ready_state_def initial_state_def)

text \<open>
  Claim C3. Files whose path is already tracked are discarded and the others are
  appended in order (\<open>handleFilesAdded_files\<close>), but the filter compares the new
  files with the tracked ones only, not with each other: two files of one path added
  in one call are both kept, and the batch started next submits that path twice. So
  the submitted path list does not hold each path at most once.
\<close>

theorem handleFilesAdded_keeps_duplicates_of_one_call:
  "files (handleFilesAdded initial_state [photo, photo]) = [photo, photo] \<and>
   snd (handleStart (handleFilesAdded initial_state [photo, photo]) (Inr ()) (Inl ''failed'')) =
     [reset_cancel_flag,
      optimize_batch (build_request (handleFilesAdded initial_state [photo, photo]))] \<and>
   paths (build_request (handleFilesAdded initial_state [photo, photo])) =
     [''photo.png'', ''photo.png''] \<and>
   \<not> distinct (paths (build_request (handleFilesAdded initial_state [photo, photo])))"
proof -
  let ?S = "handleFilesAdded initial_state [photo, photo]"
  have f: "files ?S = [photo, photo]"
    by (simp add: handleFilesAdded_files initial_state_def)
  have o: "overwriteState ?S"
    by (simp add: handleFilesAdded_overwriteState initial_state_def)
  have s: "snd (handleStart ?S (Inr ()) (Inl ''failed'')) =
      [reset_cancel_flag, optimize_batch (build_request ?S)]"
    by (rule handleStart_sent) (simp_all add: f o)
  have p: "paths (build_request ?S) = [''photo.png'', ''photo.png'']"
    unfolding build_request_paths f by (simp add: photo_def)
  have "\<not> distinct (paths (build_request ?S))"
    unfolding p by simp
  with f s p show ?thesis by blast
qed

text \<open>
  Claim C4. Started with no tracked file, or with overwrite off and an empty output
  directory, \<^verbatim>\<open>handleStart\<close> returns at once: it sends no command (no request, and
  no reset either) and leaves the whole state, the tracked files and their statuses
  included, as it was.
\<close>

theorem handleStart_guard_no_work:
  "files st = [] \<or> (\<not> overwriteState st \<and> outputDir st = []) \<Longrightarrow>
   snd (handleStart st reset_outcome batch_outcome) = [] \<and>
   fst (handleStart st reset_outcome batch_outcome) = st"
  by (auto simp: handleStart_def)

theorem handleStart_guard_no_work_witness:
  "files initial_state = [] \<and>
   snd (handleStart initial_state (Inr ()) (Inl ''failed'')) = [] \<and>
   fst (handleStart initial_state (Inr ()) (Inl ''failed'')) = initial_state \<and>
   \<not> overwriteState (initial_state\<lparr>files := [photo], overwriteState := False\<rparr>) \<and>
   outputDir (initial_state\<lparr>files := [photo], overwriteState := False\<rparr>) = [] \<and>
   snd (handleStart (initial_state\<lparr>files := [photo], overwriteState := False\<rparr>)
          (Inr ()) (Inl ''failed'')) = [] \<and>
   map status (files (fst (handleStart (initial_state\<lparr>files := [photo], overwriteState := False\<rparr>)
          (Inr ()) (Inl ''failed'')))) = [Status_pending]"
  using handleStart_guard_no_work [of initial_state "Inr ()" "Inl ''failed''"]
    handleStart_guard_no_work [of "initial_state\<lparr>files := [photo], overwriteState := False\<rparr>"
      "Inr ()" "Inl ''failed''"]
  by (simp add: initial_state_def photo_def)

text \<open>
  Claim C5, as stated, fails: in mode \<^verbatim>\<open>'all'\<close> the submitted request has no
  \<^verbatim>\<open>format\<close>, although that mode includes format conversion.
\<close>

theorem submitted_format_absent_in_mode_all:
  "optimize_batch (build_request (ready_state\<lparr>operationMode := Mode_all\<rparr>))
     \<in> set (snd (handleStart (ready_state\<lparr>operationMode := Mode_all\<rparr>) (Inr ()) (Inl ''failed''))) \<and>
   operationMode (ready_state\<lparr>operationMode := Mode_all\<rparr>) = Mode_all \<and>
   format (build_request (ready_state\<lparr>operationMode := Mode_all\<rparr>)) = None \<and>
   format (build_request (ready_state\<lparr>operationMode := Mode_all\<rparr>))
     \<noteq> Some (outputFormat (ready_state\<lparr>operationMode := Mode_all\<rparr>))"
proof -
  let ?S = "ready_state\<lparr>operationMode := Mode_all\<rparr>"
  have "optimize_batch (build_request ?S) \<in> set (snd (handleStart ?S (Inr ()) (Inl ''failed'')))"
    by (simp add: handleStart_sent ready_state_def initial_state_def)
  moreover have "format (build_request ?S) = None"
    by (simp add: build_request_def)
  ultimately show ?thesis by simp
qed

text \<open>
  Claim C5, amended. The \<^verbatim>\<open>format\<close> field of a submitted request is the selected
  output format exactly when the operation mode is \<^verbatim>\<open>'convert'\<close>, and is absent in
  every other mode, \<^verbatim>\<open>'all'\<close> included.
\<close>

theorem submitted_format_only_in_convert:
  "optimize_batch req \<in> set (snd (handleStart st reset_outcome batch_outcome)) \<Longrightarrow>
   format req = (if operationMode st = Mode_convert then Some (outputFormat st) else None)"
  by (drule submitted) (simp add: build_request_def)

theorem submitted_format_only_in_convert_witness:
  "optimize_batch
     (build_request (ready_state\<lparr>operationMode := Mode_convert, outputFormat := Fmt_tiff\<rparr>))
     \<in> set (snd (handleStart (ready_state\<lparr>operationMode := Mode_convert, outputFormat := Fmt_tiff\<rparr>)
                 (Inr ()) (Inl ''failed''))) \<and>
   format (build_request (ready_state\<lparr>operationMode := Mode_convert, outputFormat := Fmt_tiff\<rparr>))
     = Some Fmt_tiff"
proof -
  let ?S = "ready_state\<lparr>operationMode := Mode_convert, outputFormat := Fmt_tiff\<rparr>"
  have sent: "optimize_batch (build_request ?S) \<in> set (snd (handleStart ?S (Inr ()) (Inl ''failed'')))"
    by (simp add: handleStart_sent ready_state_def initial_state_def)
  from submitted_format_only_in_convert [OF sent] sent show ?thesis
    by simp
qed

text \<open>
  Claim C6. Whenever overwrite is on, the submitted request has the empty string as
  its \<^verbatim>\<open>output_dir\<close> (and \<^verbatim>\<open>overwrite\<close> set), whatever output directory is
  configured.
\<close>

theorem submitted_output_dir_empty_when_overwriting:
  "optimize_batch req \<in> set (snd (handleStart st reset_outcome batch_outcome)) \<Longrightarrow>
   overwriteState st \<Longrightarrow> overwrite req \<and> output_dir req = []"
  by (drule submitted) (simp add: build_request_def)

theorem submitted_output_dir_empty_when_overwriting_witness:
  "optimize_batch (build_request ready_state)
     \<in> set (snd (handleStart ready_state (Inr ()) (Inl ''failed''))) \<and>
   overwriteState ready_state \<and> outputDir ready_state = ''/out'' \<and>
   overwrite (build_request ready_state) \<and> output_dir (build_request ready_state) = []"
proof -
  have o: "overwriteState ready_state" and d: "outputDir ready_state = ''/out''"
    by (simp_all add: ready_state_def initial_state_def)
  from submitted_output_dir_empty_when_overwriting [OF ready_state_submits o]
    ready_state_submits o d
  show ?thesis by simp
qed

text \<open>
  Claim C7. The \<^verbatim>\<open>quality\<close> field of a submitted request is present exactly when
  the mode is \<^verbatim>\<open>'optimize'\<close>, \<^verbatim>\<open>'optimize_resize'\<close> or \<^verbatim>\<open>'all'\<close> and the selected
  format is \<^verbatim>\<open>'webp'\<close>, \<^verbatim>\<open>'png'\<close> or \<^verbatim>\<open>'jpeg'\<close>; when present it is the selected
  quality; it is absent whenever the format is \<^verbatim>\<open>'tiff'\<close>, \<^verbatim>\<open>'qoi'\<close> or
  \<^verbatim>\<open>'bmp'\<close>.
\<close>

theorem submitted_quality_iff_recompress_and_lossy:
  "optimize_batch req \<in> set (snd (handleStart st reset_outcome batch_outcome)) \<Longrightarrow>
   (quality req \<noteq> None \<longleftrightarrow>
      (operationMode st = Mode_optimize \<or> operationMode st = Mode_optimize_resize \<or>
       operationMode st = Mode_all) \<and>
      (outputFormat st = Fmt_webp \<or> outputFormat st = Fmt_png \<or> outputFormat st = Fmt_jpeg)) \<and>
   (quality req \<noteq> None \<longrightarrow> quality req = Some (qualityState st)) \<and>
   (outputFormat st = Fmt_tiff \<or> outputFormat st = Fmt_qoi \<or> outputFormat st = Fmt_bmp
      \<longrightarrow> quality req = None)"
  by (drule submitted) (auto simp: build_request_def)

theorem submitted_quality_iff_recompress_and_lossy_witness:
  "optimize_batch (build_request ready_state)
     \<in> set (snd (handleStart ready_state (Inr ()) (Inl ''failed''))) \<and>
   operationMode ready_state = Mode_optimize \<and> outputFormat ready_state = Fmt_webp \<and>
   quality (build_request ready_state) = Some 90 \<and>
   optimize_batch (build_request (ready_state\<lparr>outputFormat := Fmt_tiff\<rparr>))
     \<in> set (snd (handleStart (ready_state\<lparr>outputFormat := Fmt_tiff\<rparr>) (Inr ()) (Inl ''failed''))) \<and>
   quality (build_request (ready_state\<lparr>outputFormat := Fmt_tiff\<rparr>)) = None"
proof -
  let ?T = "ready_state\<lparr>outputFormat := Fmt_tiff\<rparr>"
  have s2: "optimize_batch (build_request ?T)
      \<in> set (snd (handleStart ?T (Inr ()) (Inl ''failed'')))"
    by (simp add: handleStart_sent ready_state_def initial_state_def)
  have v: "operationMode ready_state = Mode_optimize" "outputFormat ready_state = Fmt_webp"
    "qualityState ready_state = 90" "outputFormat ?T = Fmt_tiff"
    by (simp_all add: ready_state_def initial_state_def)
  from submitted_quality_iff_recompress_and_lossy [OF ready_state_submits]
    submitted_quality_iff_recompress_and_lossy [OF s2] ready_state_submits s2 v
  show ?thesis by simp
qed

text \<open>
  Claim C8. In every submitted request \<^verbatim>\<open>create_backup\<close> is true exactly when
  \<^verbatim>\<open>overwrite\<close> is, both being the overwrite setting of the front end.
\<close>

theorem submitted_create_backup_iff_overwrite:
  "optimize_batch req \<in> set (snd (handleStart st reset_outcome batch_outcome)) \<Longrightarrow>
   create_backup req = overwrite req \<and> overwrite req = overwriteState st"
  by (drule submitted) (simp add: build_request_def)

theorem submitted_create_backup_iff_overwrite_witness:
  "optimize_batch (build_request ready_state)
     \<in> set (snd (handleStart ready_state (Inr ()) (Inl ''failed''))) \<and>
   create_backup (build_request ready_state) \<and> overwrite (build_request ready_state) \<and>
   optimize_batch (build_request (ready_state\<lparr>overwriteState := False\<rparr>))
     \<in> set (snd (handleStart (ready_state\<lparr>overwriteState := False\<rparr>) (Inr ()) (Inl ''failed''))) \<and>
   \<not> create_backup (build_request (ready_state\<lparr>overwriteState := False\<rparr>)) \<and>
   \<not> overwrite (build_request (ready_state\<lparr>overwriteState := False\<rparr>))"
proof -
  let ?T = "ready_state\<lparr>overwriteState := False\<rparr>"
  have s2: "optimize_batch (build_request ?T)
      \<in> set (snd (handleStart ?T (Inr ()) (Inl ''failed'')))"
    by (simp add: handleStart_sent ready_state_def initial_state_def)
  have v: "overwriteState ready_state" "\<not> overwriteState ?T"
    by (simp_all add: ready_state_def initial_state_def)
  from submitted_create_backup_iff_overwrite [OF ready_state_submits]
    submitted_create_backup_iff_overwrite [OF s2] ready_state_submits s2 v
  show ?thesis by simp
qed

text \<open>
  Claim C9, as stated, fails: when the invocation of \<^verbatim>\<open>reset_cancel_flag\<close> is
  rejected, \<^verbatim>\<open>handleStart\<close> catches the rejection and submits the batch all the
  same, so a flag left set by an earlier cancel is still set when the batch is
  submitted.
\<close>

theorem batch_submitted_after_rejected_reset:
  "snd (handleStart ready_state (Inl ''reset failed'') (Inl ''failed'')) =
     [reset_cancel_flag, optimize_batch (build_request ready_state)] \<and>
   flag_after (cancel_invocations ready_state (Inr ())) False = True \<and>
   flag_at_submission
     (start_invocations ready_state (Inl ''reset failed'') (Inl ''failed'')) True = Some True"
proof -
  have s: "snd (handleStart ready_state (Inl ''reset failed'') (Inl ''failed'')) =
      [reset_cancel_flag, optimize_batch (build_request ready_state)]"
    by (simp add: handleStart_sent ready_state_def initial_state_def)
  have c: "flag_after (cancel_invocations ready_state (Inr ())) False = True"
    by (simp add: cancel_invocations_def handleCancel_def resolved_def control_effect_def)
  have "flag_at_submission
      (start_invocations ready_state (Inl ''reset failed'') (Inl ''failed'')) True = Some True"
    unfolding start_invocations_def s by (simp add: resolved_def)
  with s c show ?thesis by simp
qed

text \<open>
  Claim C9, amended. A start sends either nothing or the reset of the cancellation
  flag followed by the batch request. A start that passes the guards invokes the
  reset before it submits the batch, whether the reset resolves or is rejected: when
  the reset resolves, the flag is false when the batch is submitted, whatever it was
  before; when the reset is rejected, the batch is submitted with the flag as it
  was. A cancel sends the cancel command to the back end, whatever the state and
  whether or not the invocation then resolves, and when it resolves the flag is set.
\<close>

theorem reset_invoked_before_batch_and_cancel_sent:
  "(snd (handleStart st reset_outcome batch_outcome) = [] \<or>
    snd (handleStart st reset_outcome batch_outcome) =
      [reset_cancel_flag, optimize_batch (build_request st)]) \<and>
   (files st \<noteq> [] \<and> (overwriteState st \<or> outputDir st \<noteq> []) \<longrightarrow>
    snd (handleStart st reset_outcome batch_outcome) =
      [reset_cancel_flag, optimize_batch (build_request st)] \<and>
    flag_at_submission (start_invocations st (Inr ()) batch_outcome) flag = Some False \<and>
    flag_at_submission (start_invocations st (Inl err) batch_outcome) flag = Some flag) \<and>
   snd (handleCancel st cancel_outcome) = [cancel_batch] \<and>
   flag_after (cancel_invocations st (Inr ())) flag = True \<and>
   flag_after (cancel_invocations st (Inl err)) flag = flag"
proof -
  have always: "snd (handleStart st reset_outcome batch_outcome) = [] \<or>
      snd (handleStart st reset_outcome batch_outcome) =
        [reset_cancel_flag, optimize_batch (build_request st)]"
    by (auto simp: handleStart_def Let_def split: sum.splits)
  have past: "snd (handleStart st reset_outcome batch_outcome) =
        [reset_cancel_flag, optimize_batch (build_request st)] \<and>
      flag_at_submission (start_invocations st (Inr ()) batch_outcome) flag = Some False \<and>
      flag_at_submission (start_invocations st (Inl err) batch_outcome) flag = Some flag"
    if g: "files st \<noteq> [] \<and> (overwriteState st \<or> outputDir st \<noteq> [])"
  proof -
    from g have sent: "snd (handleStart st ro batch_outcome) =
        [reset_cancel_flag, optimize_batch (build_request st)]" for ro
      by (simp add: handleStart_sent)
    have "flag_at_submission (start_invocations st (Inr ()) batch_outcome) flag = Some False"
      unfolding start_invocations_def sent by (simp add: resolved_def control_effect_def)
    moreover have
      "flag_at_submission (start_invocations st (Inl err) batch_outcome) flag = Some flag"
      unfolding start_invocations_def sent by (simp add: resolved_def)
    ultimately show ?thesis using sent by simp
  qed
  have cancel: "snd (handleCancel st cancel_outcome) = [cancel_batch]"
    by (simp add: handleCancel_def split: sum.splits)
  have c1: "flag_after (cancel_invocations st (Inr ())) flag = True"
    by (simp add: cancel_invocations_def handleCancel_def resolved_def control_effect_def)
  have c2: "flag_after (cancel_invocations st (Inl err)) flag = flag"
    by (simp add: cancel_invocations_def handleCancel_def resolved_def)
  from always past cancel c1 c2 show ?thesis by blast
qed

theorem reset_invoked_before_batch_and_cancel_sent_witness:
  "files ready_state \<noteq> [] \<and> overwriteState ready_state \<and>
   snd (handleStart ready_state (Inr ()) (Inl ''failed'')) =
     [reset_cancel_flag, optimize_batch (build_request ready_state)] \<and>
   flag_at_submission (start_invocations ready_state (Inr ()) (Inl ''failed'')) True
     = Some False \<and>
   flag_at_submission (start_invocations ready_state (Inl ''reset failed'') (Inl ''failed'')) True
     = Some True \<and>
   snd (handleCancel (ready_state\<lparr>isProcessing := True\<rparr>) (Inr ())) = [cancel_batch] \<and>
   flag_after (cancel_invocations (ready_state\<lparr>isProcessing := True\<rparr>) (Inr ())) False = True"
proof -
  have v: "files ready_state \<noteq> []" "overwriteState ready_state"
    by (simp_all add: ready_state_def initial_state_def)
  from reset_invoked_before_batch_and_cancel_sent
      [of ready_state "Inr ()" "Inl ''failed''" True "''reset failed''" "Inr ()"]
    reset_invoked_before_batch_and_cancel_sent
      [of "ready_state\<lparr>isProcessing := True\<rparr>" "Inr ()" "Inl ''failed''" False
        "''reset failed''" "Inr ()"] v
  show ?thesis by simp
qed

text \<open>
  Claim C10. When the batch invocation is rejected, every tracked file is marked
  failed with the error's string, the processed count and the failed count are both
  the number of tracked files, the success count is zero, and processing is over.
\<close>

theorem handleStart_rejected_marks_all_failed:
  "files st \<noteq> [] \<Longrightarrow> overwriteState st \<or> outputDir st \<noteq> [] \<Longrightarrow>
   files (fst (handleStart st reset_outcome (Inl err))) =
     map (\<lambda>f. f\<lparr>status := Status_failed, error := Some err\<rparr>) (files st) \<and>
   processedFiles (fst (handleStart st reset_outcome (Inl err))) = length (files st) \<and>
   failedCount (fst (handleStart st reset_outcome (Inl err))) = length (files st) \<and>
   successCount (fst (handleStart st reset_outcome (Inl err))) = 0 \<and>
   \<not> isProcessing (fst (handleStart st reset_outcome (Inl err)))"
  by (auto simp: handleStart_def Let_def)

theorem handleStart_rejected_marks_all_failed_witness:
  "files ready_state \<noteq> [] \<and> overwriteState ready_state \<and>
   map status (files (fst (handleStart ready_state (Inr ()) (Inl ''InvalidRequest''))))
     = [Status_failed] \<and>
   map error (files (fst (handleStart ready_state (Inr ()) (Inl ''InvalidRequest''))))
     = [Some ''InvalidRequest''] \<and>
   processedFiles (fst (handleStart ready_state (Inr ()) (Inl ''InvalidRequest''))) = 1 \<and>
   failedCount (fst (handleStart ready_state (Inr ()) (Inl ''InvalidRequest''))) = 1 \<and>
   successCount (fst (handleStart ready_state (Inr ()) (Inl ''InvalidRequest''))) = 0"
proof -
  have v: "files ready_state = [photo]" "overwriteState ready_state"
    by (simp_all add: ready_state_def initial_state_def)
  from v have "files ready_state \<noteq> []" "overwriteState ready_state \<or> outputDir ready_state \<noteq> []"
    by simp_all
  from handleStart_rejected_marks_all_failed [OF this, of "Inr ()" "''InvalidRequest''"] v
  show ?thesis by simp
qed

section \<open>Properties of the batch coordinator\<close>

subsection \<open>Duplicate suppression\<close>

lemma set_first_seen: "set (first_seen seen ps) = set ps - set seen"
  by (induction ps arbitrary: seen) auto

lemma distinct_first_seen: "distinct (first_seen seen ps)"
  by (induction ps arbitrary: seen) (auto simp: set_first_seen)

lemma set_unique_paths: "set (unique_paths ps) = set ps"
  by (simp add: unique_paths_def set_first_seen)

lemma distinct_unique_paths: "distinct (unique_paths ps)"
  by (simp add: unique_paths_def distinct_first_seen)

lemma length_unique_paths: "length (unique_paths ps) = card (set ps)"
  using distinct_card [OF distinct_unique_paths, of ps] by (simp add: set_unique_paths)

subsection \<open>Dispatch under cancellation\<close>

text \<open>The tasks dispatched are an initial segment of the tasks built.\<close>

lemma dispatch_take: "\<exists>n. dispatch cancelled k ps = take n ps"
proof (induction ps arbitrary: k)
  case Nil
  show ?case by simp
next
  case (Cons p ps)
  show ?case
  proof (cases "cancelled k")
    case True
    then have "dispatch cancelled k (p # ps) = take 0 (p # ps)" by simp
    then show ?thesis by blast
  next
    case False
    from Cons.IH [of "Suc k"] obtain n where "dispatch cancelled (Suc k) ps = take n ps"
      by blast
    with False have "dispatch cancelled k (p # ps) = take (Suc n) (p # ps)" by simp
    then show ?thesis by blast
  qed
qed

text \<open>With the flag never read as set, every task is dispatched.\<close>

lemma dispatch_all:
  "(\<forall>i < length ps. \<not> cancelled (k + i)) \<Longrightarrow> dispatch cancelled k ps = ps"
proof (induction ps arbitrary: k)
  case Nil
  show ?case by simp
next
  case (Cons p ps)
  from Cons.prems have "\<not> cancelled k" by force
  moreover have "\<forall>i < length ps. \<not> cancelled (Suc k + i)"
    using Cons.prems by force
  ultimately show ?case using Cons.IH [of "Suc k"] by simp
qed

subsection \<open>The aggregator and the pipeline boundary\<close>

lemma fold_add_result_results: "results (fold add_result rs b) = results b @ rs"
  by (induction rs arbitrary: b) (simp_all add: add_result_def)

lemma fold_add_result_total: "total (fold add_result rs b) = total b + length rs"
  by (induction rs arbitrary: b) (simp_all add: add_result_def)

lemma fold_add_result_success:
  "success_count (fold add_result rs b) =
     success_count b + length (filter (\<lambda>r. r_status r = Status_success) rs)"
  by (induction rs arbitrary: b) (simp_all add: add_result_def)

lemma fold_add_result_failed:
  "failed_count (fold add_result rs b) =
     failed_count b + length (filter (\<lambda>r. r_status r = Status_failed) rs)"
  by (induction rs arbitrary: b) (simp_all add: add_result_def)

lemma process_path: "r_path (process stages p) = p"
  by (simp add: process_def split: sum.splits)

lemma process_status:
  "r_status (process stages p) = Status_success \<or> r_status (process stages p) = Status_failed"
  by (simp add: process_def split: sum.splits)

lemma map_path_process: "map r_path (map (process stages) ps) = ps"
  by (induction ps) (simp_all add: process_path)

lemma success_failed_partition:
  "length (filter (\<lambda>r. r_status r = Status_success) (map (process stages) ps)) +
   length (filter (\<lambda>r. r_status r = Status_failed) (map (process stages) ps)) = length ps"
proof (induction ps)
  case Nil
  show ?case by simp
next
  case (Cons p ps)
  then show ?case using process_status [of stages p] by auto
qed

lemma count_list_distinct: "distinct xs \<Longrightarrow> x \<in> set xs \<Longrightarrow> count_list xs x = 1"
  by (induction xs) auto

lemma two_paths_valid: "valid_request two_paths"
  by (simp add: valid_request_def two_paths_def build_request_def initial_state_def)

lemma two_paths_unique: "unique_paths (paths two_paths) = [''a.png'', ''b.png'']"
  by (simp add: two_paths_def unique_paths_def)

lemma two_paths_card: "card (set (paths two_paths)) = 2"
  using length_unique_paths [of "paths two_paths"] by (simp add: two_paths_unique)

subsection \<open>The batch report\<close>

text \<open>
  Claim C1, as stated, fails: a valid request with two unique paths, run with the
  cancellation flag read as set once one task has been dispatched, returns a report
  of one result, and the second path is in no result.
\<close>

theorem run_cancelled_omits_undispatched_paths:
  "valid_request two_paths \<and>
   card (set (paths two_paths)) = 2 \<and>
   run (cancelled_after 1) corrupt_stages two_paths =
     Inr \<lparr> results = [\<lparr> r_path = ''a.png'', r_status = Status_failed, output_path = None,
                        output_size = None, output_width = None, output_height = None,
                        r_error = Some ''decode error'' \<rparr>],
           total = 1, success_count = 0, failed_count = 1 \<rparr>"
proof -
  have "run (cancelled_after 1) corrupt_stages two_paths =
     Inr \<lparr> results = [\<lparr> r_path = ''a.png'', r_status = Status_failed, output_path = None,
                        output_size = None, output_width = None, output_height = None,
                        r_error = Some ''decode error'' \<rparr>],
           total = 1, success_count = 0, failed_count = 1 \<rparr>"
    by (simp add: run_def two_paths_valid two_paths_unique cancelled_after_def aggregate_def
          add_result_def process_def corrupt_stages_def)
  with two_paths_valid two_paths_card show ?thesis by simp
qed

text \<open>
  Claim C1, amended. For every valid request \<^verbatim>\<open>run\<close> returns a report (it does
  not fail) in which \<open>total = success_count + failed_count = length results\<close>, which
  is at most the number of unique input paths; no path has two results and every
  result is of an input path. When no cancellation is read before the last task is
  dispatched, \<open>total\<close> is the number of unique input paths and every input path has
  exactly one result.
\<close>

theorem run_report_counts:
  assumes "valid_request req"
  shows "\<exists>b. run cancelled stages req = Inr b \<and>
     total b = success_count b + failed_count b \<and>
     total b = length (results b) \<and>
     length (results b) \<le> card (set (paths req)) \<and>
     distinct (map r_path (results b)) \<and>
     set (map r_path (results b)) \<subseteq> set (paths req) \<and>
     ((\<forall>k < card (set (paths req)). \<not> cancelled k) \<longrightarrow>
        total b = card (set (paths req)) \<and>
        (\<forall>p \<in> set (paths req). count_list (map r_path (results b)) p = 1))"
proof -
  let ?u = "unique_paths (paths req)"
  let ?d = "dispatch cancelled 0 ?u"
  let ?b = "aggregate (map (process stages) ?d)"
  obtain n where d: "?d = take n ?u"
    using dispatch_take [of cancelled 0 ?u] by blast
  have run: "run cancelled stages req = Inr ?b"
    using assms by (simp add: run_def)
  have res: "results ?b = map (process stages) ?d"
    by (simp add: aggregate_def fold_add_result_results)
  have tot: "total ?b = length ?d"
    by (simp add: aggregate_def fold_add_result_total)
  have cnt: "success_count ?b + failed_count ?b = length ?d"
    using success_failed_partition [of stages ?d]
    by (simp add: aggregate_def fold_add_result_success fold_add_result_failed)
  have pth: "map r_path (results ?b) = ?d"
    by (simp only: res map_path_process)
  have le: "length ?d \<le> card (set (paths req))"
    by (simp add: d length_unique_paths [symmetric])
  have dis: "distinct ?d"
    by (simp add: d distinct_unique_paths)
  have sub: "set ?d \<subseteq> set (paths req)"
    using set_take_subset [of n ?u] by (simp add: d set_unique_paths)
  have full: "total ?b = card (set (paths req)) \<and>
      (\<forall>p \<in> set (paths req). count_list (map r_path (results ?b)) p = 1)"
    if nc: "\<forall>k < card (set (paths req)). \<not> cancelled k"
  proof -
    have du: "?d = ?u"
      using nc by (intro dispatch_all) (simp add: length_unique_paths)
    have "total ?b = length ?d" by (rule tot)
    also have "\<dots> = length ?u" by (simp only: du)
    also have "\<dots> = card (set (paths req))" by (rule length_unique_paths)
    finally have t: "total ?b = card (set (paths req))" .
    have pu: "map r_path (results ?b) = ?u"
      using pth du by (rule trans)
    have "count_list (map r_path (results ?b)) p = 1" if "p \<in> set (paths req)" for p
    proof -
      from that have "p \<in> set ?u" by (simp only: set_unique_paths)
      with distinct_unique_paths have "count_list ?u p = 1" by (rule count_list_distinct)
      then show ?thesis by (simp only: pu)
    qed
    with t show ?thesis by blast
  qed
  have "total ?b = success_count ?b + failed_count ?b" using tot cnt by simp
  moreover have "total ?b = length (results ?b)" by (simp add: tot res)
  moreover have "length (results ?b) \<le> card (set (paths req))" using le by (simp add: res)
  moreover have "distinct (map r_path (results ?b))" using dis by (simp only: pth)
  moreover have "set (map r_path (results ?b)) \<subseteq> set (paths req)" using sub by (simp only: pth)
  ultimately show ?thesis using run full by blast
qed

theorem run_report_counts_witness:
  "valid_request two_paths \<and> \<not> never_cancelled 0 \<and> \<not> never_cancelled 1 \<and>
   card (set (paths two_paths)) = 2 \<and>
   (\<exists>b. run never_cancelled corrupt_stages two_paths = Inr b \<and>
        total b = 2 \<and> success_count b + failed_count b = 2 \<and> length (results b) = 2 \<and>
        count_list (map r_path (results b)) ''a.png'' = 1 \<and>
        count_list (map r_path (results b)) ''b.png'' = 1)"
proof -
  have s: "set (paths two_paths) = {''a.png'', ''b.png''}"
    using set_unique_paths [of "paths two_paths"] by (simp add: two_paths_unique)
  have nc: "\<forall>k < card (set (paths two_paths)). \<not> never_cancelled k"
    by (simp add: never_cancelled_def)
  from run_report_counts [OF two_paths_valid, of never_cancelled corrupt_stages] nc
  obtain b where b: "run never_cancelled corrupt_stages two_paths = Inr b"
    "total b = success_count b + failed_count b" "total b = length (results b)"
    "total b = card (set (paths two_paths))"
    "\<forall>p \<in> set (paths two_paths). count_list (map r_path (results b)) p = 1"
    by blast
  from b(5) have "count_list (map r_path (results b)) ''a.png'' = 1"
    "count_list (map r_path (results b)) ''b.png'' = 1"
    by (simp_all add: s)
  with b two_paths_card two_paths_valid show ?thesis by (auto simp: never_cancelled_def)
qed

section \<open>Properties of the resize operator\<close>

lemma round_one_percent: "round (1 / 100 :: rat) = 0"
  by (rule round_unique) simp_all

lemma at_least_one_le: "0 < n \<Longrightarrow> x \<le> of_nat n \<Longrightarrow> at_least_one (round (x::rat)) \<le> n"
proof -
  assume n: "0 < n" and x: "x \<le> of_nat n"
  from round_mono [OF x] have "round x \<le> int n" by simp
  with n show ?thesis by (simp add: at_least_one_def)
qed

lemma at_least_one_pos: "0 < at_least_one n"
  by (simp add: at_least_one_def)

text \<open>
  Claim C2, as stated, fails: for a \<open>1 \<times> 1000\<close> buffer and a \<open>10 \<times> 10\<close> box the scale
  is \<open>1/100\<close>, the scaled width rounds to \<open>0\<close>, and the operator gives a width of
  \<open>1\<close>, not the rounded value.
\<close>

theorem aspect_lock_axis_rounding_to_zero:
  "target_dimensions (Dimensions 10 10) True (1, 1000) = (1, 10) \<and>
   round (of_nat 1 * min 1 (min (of_nat 10 / of_nat 1) (of_nat 10 / of_nat 1000)) :: rat) = 0 \<and>
   round (of_nat 1000 * min 1 (min (of_nat 10 / of_nat 1) (of_nat 10 / of_nat 1000)) :: rat) = 10 \<and>
   target_dimensions (Dimensions 10 10) True (1, 1000) \<noteq>
     (nat (round (of_nat 1 * min 1 (min (of_nat 10 / of_nat 1) (of_nat 10 / of_nat 1000)) :: rat)),
      nat (round (of_nat 1000 * min 1 (min (of_nat 10 / of_nat 1) (of_nat 10 / of_nat 1000)) :: rat)))"
  by (simp add: target_dimensions_def fit_scale_def at_least_one_def round_one_percent)

text \<open>
  Claim C2, amended. For a buffer of \<open>w \<times> h\<close> pixels and a box of \<open>maxW \<times> maxH\<close>, all
  positive, the operator in Dimensions mode with aspect lock scales both axes by
  \<open>min 1 (min (maxW / w) (maxH / h))\<close>, rounds, and gives at least one pixel per
  axis; the result exceeds neither the original nor the box on either axis. A
  \<open>4000 \<times> 2000\<close> buffer in a \<open>1000 \<times> 1000\<close> box gives \<open>1000 \<times> 500\<close>, and a
  \<open>200 \<times> 100\<close> buffer in the same box stays \<open>200 \<times> 100\<close>.
\<close>

theorem aspect_lock_target_dimensions:
  assumes "0 < w" and "0 < h" and "0 < maxW" and "0 < maxH"
  shows "target_dimensions (Dimensions maxW maxH) True (w, h) =
           (at_least_one (round (of_nat w *
                min 1 (min (of_nat maxW / of_nat w) (of_nat maxH / of_nat h)) :: rat)),
            at_least_one (round (of_nat h *
                min 1 (min (of_nat maxW / of_nat w) (of_nat maxH / of_nat h)) :: rat))) \<and>
         fst (target_dimensions (Dimensions maxW maxH) True (w, h)) \<le> w \<and>
         snd (target_dimensions (Dimensions maxW maxH) True (w, h)) \<le> h \<and>
         fst (target_dimensions (Dimensions maxW maxH) True (w, h)) \<le> maxW \<and>
         snd (target_dimensions (Dimensions maxW maxH) True (w, h)) \<le> maxH \<and>
         0 < fst (target_dimensions (Dimensions maxW maxH) True (w, h)) \<and>
         0 < snd (target_dimensions (Dimensions maxW maxH) True (w, h)) \<and>
         target_dimensions (Dimensions 1000 1000) True (4000, 2000) = (1000, 500) \<and>
         target_dimensions (Dimensions 1000 1000) True (200, 100) = (200, 100)"
proof -
  define s :: rat where "s = min 1 (min (of_nat maxW / of_nat w) (of_nat maxH / of_nat h))"
  have eq: "target_dimensions (Dimensions maxW maxH) True (w, h) =
      (at_least_one (round (of_nat w * s)), at_least_one (round (of_nat h * s)))"
    using assms by (simp add: target_dimensions_def fit_scale_def s_def Let_def)
  have s1: "s \<le> 1" and sw: "s \<le> of_nat maxW / of_nat w" and sh: "s \<le> of_nat maxH / of_nat h"
    by (simp_all add: s_def)
  have w1: "of_nat w * s \<le> (of_nat w :: rat)"
    using s1 by (simp add: mult_left_le)
  have h1: "of_nat h * s \<le> (of_nat h :: rat)"
    using s1 by (simp add: mult_left_le)
  have w2: "of_nat w * s \<le> (of_nat maxW :: rat)"
    using sw assms(1) by (simp add: pos_le_divide_eq mult.commute)
  have h2: "of_nat h * s \<le> (of_nat maxH :: rat)"
    using sh assms(2) by (simp add: pos_le_divide_eq mult.commute)
  have e1: "target_dimensions (Dimensions 1000 1000) True (4000, 2000) = (1000, 500)"
    by (simp add: target_dimensions_def fit_scale_def at_least_one_def)
  have e2: "target_dimensions (Dimensions 1000 1000) True (200, 100) = (200, 100)"
    by (simp add: target_dimensions_def fit_scale_def at_least_one_def)
  show ?thesis
    unfolding eq s_def [symmetric]
    using at_least_one_le [OF assms(1) w1] at_least_one_le [OF assms(2) h1]
      at_least_one_le [OF assms(3) w2] at_least_one_le [OF assms(4) h2]
      at_least_one_pos e1 e2
    by simp
qed

theorem aspect_lock_target_dimensions_witness:
  "(0::nat) < 1920 \<and> (0::nat) < 1080 \<and> (0::nat) < 640 \<and>
   target_dimensions (Dimensions 640 640) True (1920, 1080) = (640, 360)"
proof -
  have "target_dimensions (Dimensions 640 640) True (1920, 1080) =
      (at_least_one (round (of_nat 1920 *
           min 1 (min (of_nat 640 / of_nat 1920) (of_nat 640 / of_nat 1080)) :: rat)),
       at_least_one (round (of_nat 1080 *
           min 1 (min (of_nat 640 / of_nat 1920) (of_nat 640 / of_nat 1080)) :: rat)))"
    using aspect_lock_target_dimensions [of 1920 1080 640 640] by simp
  then show ?thesis by (simp add: at_least_one_def)
qed

end
